theory Spec2Isabelle
  imports
    Main
    "HOL-Library.Char_ord"
    "HOL-Library.List_Lexorder"
    "HOL-Library.Sublist"
begin

section \<open>Strings\<close>

text \<open>
  Python strings are modelled as \<open>string\<close>, one \<open>char\<close> per character of the ASCII range
  (the warning sign of two messages, which lies outside it, is spelled as the bytes of its
  UTF-8 encoding). Case mapping and the character classes below are those Python gives the
  ASCII range: \<open>str.lower\<close> and \<open>str.upper\<close> move the 26 letters, \<open>str.split()\<close> and the
  regular expression class \<open>\s\<close> take the same ten characters as white space, and \<open>\w\<close>
  takes letters, digits and the underscore.
\<close>

definition lower_char :: "char \<Rightarrow> char" where
  "lower_char c =
     (if CHR ''A'' \<le> c \<and> c \<le> CHR ''Z'' then char_of (of_char c + (32::nat)) else c)"

definition upper_char :: "char \<Rightarrow> char" where
  "upper_char c =
     (if CHR ''a'' \<le> c \<and> c \<le> CHR ''z'' then char_of (of_char c - (32::nat)) else c)"

definition lower :: "string \<Rightarrow> string" where
  "lower s = map lower_char s"

definition upper :: "string \<Rightarrow> string" where
  "upper s = map upper_char s"

definition is_space :: "char \<Rightarrow> bool" where
  "is_space c =
     (let n = (of_char c :: nat) in (9 \<le> n \<and> n \<le> 13) \<or> (28 \<le> n \<and> n \<le> 32))"

definition is_word_char :: "char \<Rightarrow> bool" where
  "is_word_char c =
     ((CHR ''a'' \<le> c \<and> c \<le> CHR ''z'') \<or> (CHR ''A'' \<le> c \<and> c \<le> CHR ''Z'')
      \<or> (CHR ''0'' \<le> c \<and> c \<le> CHR ''9'') \<or> c = CHR ''_'')"

text \<open>\<open>str.split()\<close> without arguments: the maximal runs of characters that are not white
  space, in order. The first argument is the run being read.\<close>

fun split_acc :: "string \<Rightarrow> string \<Rightarrow> string list" where
  "split_acc cur [] = (if cur = [] then [] else [cur])"
| "split_acc cur (c # cs) =
     (if is_space c then (if cur = [] then split_acc [] cs else cur # split_acc [] cs)
      else split_acc (cur @ [c]) cs)"

definition split :: "string \<Rightarrow> string list" where
  "split s = split_acc [] s"

text \<open>\<open>str.strip(chars)\<close>: drop the characters of \<open>chars\<close> from both ends.\<close>

definition strip :: "string \<Rightarrow> string \<Rightarrow> string" where
  "strip chars s =
     rev (dropWhile (\<lambda>c. c \<in> set chars) (rev (dropWhile (\<lambda>c. c \<in> set chars) s)))"

text \<open>\<open>sub in s\<close> on strings: \<open>sub\<close> occurs in \<open>s\<close> as a contiguous run.\<close>

fun str_contains :: "string \<Rightarrow> string \<Rightarrow> bool" where
  "str_contains [] sub = (sub = [])"
| "str_contains (c # cs) sub = (prefix sub (c # cs) \<or> str_contains cs sub)"

text \<open>The decimal numeral that an f-string prints for a length.\<close>

definition digit_char :: "nat \<Rightarrow> char" where
  "digit_char d = char_of (48 + d)"

fun str_of_nat :: "nat \<Rightarrow> string" where
  "str_of_nat n = (if n < 10 then [digit_char n] else str_of_nat (n div 10) @ [digit_char (n mod 10)])"

declare str_of_nat.simps [simp del]

definition warning_sign :: string where
  "warning_sign = map char_of [226, 154, 160, 239, 184, 143 :: nat]"

section \<open>Data model\<close>

text \<open>
  Events and interactions are dictionaries in the source. A key that the code only ever
  reads as \<open>d[k]\<close> (the text of an event, the two drugs of an interaction) is a plain field.
  A key that the code reads with \<open>d.get(k, default)\<close> may be absent and is an optional field:
  the timestamp and the drugs of an event, the severity of an interaction. Where the source
  reads such a key as \<open>d[k]\<close>, as the correlator does with the timestamp, an absent key is
  the error \<open>KeyError\<close>. The explanation of an interaction is always present, since
  \<open>get_all_drug_interactions\<close> fills it in.
\<close>

record event =
  ev_text :: string
  ev_timestamp :: "string option"
  ev_drugs :: "string list option"

record interaction =
  drug_a :: string
  drug_b :: string
  severity :: "string option"
  explanation :: string

datatype error = KeyError | ValueError

section \<open>SafetyAgent\<close>

record verdict =
  safe :: bool
  new_drug :: string
  current_drugs :: "string list"
  interactions :: "interaction list"
  max_severity :: "string option"
  message :: string

text \<open>\<open>_get_patient_medications\<close>: the drugs of all prescriptions, as a set, sorted.
  The argument is what \<open>get_patient_history\<close> returned for the prescriptions.\<close>

definition get_patient_medications :: "event list \<Rightarrow> string list" where
  "get_patient_medications prescriptions =
     sort (remdups (concat (map (\<lambda>rx. case ev_drugs rx of None \<Rightarrow> [] | Some ds \<Rightarrow> ds)
                                prescriptions)))"

text \<open>The test of the loop of \<open>_find_interactions\<close>, on one stored interaction.\<close>

definition involves :: "string \<Rightarrow> string list \<Rightarrow> interaction \<Rightarrow> bool" where
  "involves new_drug_lower current_drugs_lower i =
     (let a = lower (drug_a i); b = lower (drug_b i)
      in (a = new_drug_lower \<and> b \<in> set current_drugs_lower)
         \<or> (b = new_drug_lower \<and> a \<in> set current_drugs_lower))"

text \<open>\<open>_find_interactions\<close>; \<open>all_interactions\<close> is what
  \<open>get_all_drug_interactions\<close> returned.\<close>

definition find_interactions :: "interaction list \<Rightarrow> string \<Rightarrow> string list \<Rightarrow> interaction list" where
  "find_interactions all_interactions nd cur =
     filter (involves (lower nd) (map lower cur)) all_interactions"

definition severity_order :: "string \<rightharpoonup> nat" where
  "severity_order = [''severe'' \<mapsto> 3, ''moderate'' \<mapsto> 2, ''mild'' \<mapsto> 1]"

text \<open>The loop of \<open>_get_max_severity\<close>, on the pair \<open>(max_level, max_value)\<close>.\<close>

fun max_severity_loop :: "interaction list \<Rightarrow> string \<times> nat \<Rightarrow> string \<times> nat" where
  "max_severity_loop [] st = st"
| "max_severity_loop (i # rest) (max_level, max_value) =
     (let sev = lower (case severity i of None \<Rightarrow> ''mild'' | Some s \<Rightarrow> s);
          v = (case severity_order sev of None \<Rightarrow> 1 | Some n \<Rightarrow> n)
      in if v > max_value then max_severity_loop rest (sev, v)
         else max_severity_loop rest (max_level, max_value))"

definition get_max_severity :: "interaction list \<Rightarrow> string" where
  "get_max_severity found = fst (max_severity_loop found (''mild'', 1))"

definition check_new_medication :: "event list \<Rightarrow> interaction list \<Rightarrow> string \<Rightarrow> verdict" where
  "check_new_medication prescriptions all_interactions nd =
     (let cur = get_patient_medications prescriptions
      in if cur = [] then
           \<lparr>safe = True, new_drug = nd, current_drugs = [], interactions = [],
            max_severity = None, message = ''No current medications on record.''\<rparr>
         else
           (let found = find_interactions all_interactions nd cur
            in if found = [] then
                 \<lparr>safe = True, new_drug = nd, current_drugs = cur, interactions = [],
                  max_severity = None,
                  message = ''No known interactions found between '' @ nd
                            @ '' and current medications.''\<rparr>
               else
                 (let ms = get_max_severity found
                  in \<lparr>safe = False, new_drug = nd, current_drugs = cur, interactions = found,
                      max_severity = Some ms,
                      message = warning_sign @ '' Found '' @ str_of_nat (length found)
                                @ '' potential interaction(s). Maximum severity: ''
                                @ upper ms\<rparr>)))"

text \<open>\<open>get_interaction_details\<close>: the first stored interaction on the pair, or \<open>None\<close>.\<close>

definition get_interaction_details :: "interaction list \<Rightarrow> string \<Rightarrow> string \<Rightarrow> interaction option" where
  "get_interaction_details all_interactions a b =
     find (\<lambda>i. let ia = lower (drug_a i); ib = lower (drug_b i)
                in (ia = lower a \<and> ib = lower b) \<or> (ia = lower b \<and> ib = lower a))
          all_interactions"

text \<open>\<open>clean_drug_name\<close> of the helpers: \<open>drug_name.strip().lower()\<close>.\<close>

definition clean_drug_name :: "string \<Rightarrow> string" where
  "clean_drug_name drug_name = lower (rev (dropWhile is_space (rev (dropWhile is_space drug_name))))"


subsection \<open>The severity scale, as the specification words it\<close>

text \<open>Rank 3 for severe, 2 for moderate, 1 for mild, in any letter case; rank 1 for any
  other value and for a record without the field.\<close>

definition severity_rank :: "interaction \<Rightarrow> nat" where
  "severity_rank i =
     (case severity i of
        None \<Rightarrow> 1
      | Some s \<Rightarrow> if lower s = ''severe'' then 3 else if lower s = ''moderate'' then 2 else 1)"

definition rank_name :: "nat \<Rightarrow> string" where
  "rank_name n = (if n = 3 then ''severe'' else if n = 2 then ''moderate'' else ''mild'')"


text \<open>The same interaction with its two drugs stored the other way round.\<close>

definition swap_sides :: "interaction \<Rightarrow> interaction" where
  "swap_sides i = i\<lparr>drug_a := drug_b i, drug_b := drug_a i\<rparr>"

section \<open>Keyword extraction\<close>

text \<open>\<open>extract_keywords_from_text\<close> of the helpers: every character that is neither a word
  character nor white space becomes a blank, then the text is split and filtered.\<close>

definition helper_stop_words :: "string set" where
  "helper_stop_words =
     {''the'', ''a'', ''an'', ''and'', ''or'', ''but'', ''in'', ''on'', ''at'', ''to'', ''for'',
      ''of'', ''with'', ''by'', ''from'', ''as'', ''is'', ''was'', ''are'', ''were'', ''been'',
      ''be'', ''have'', ''has'', ''had'', ''do'', ''does'', ''did'', ''will'', ''would'',
      ''should'', ''could'', ''may'', ''might'', ''must'', ''can'', ''this'', ''that'',
      ''these'', ''those'', ''i'', ''you'', ''he'', ''she'', ''it'', ''we'', ''they'',
      ''my'', ''your'', ''his'', ''her'', ''its'', ''our'', ''their'', ''me'', ''him'',
      ''them'', ''us'', ''am'', ''been'', ''being'', ''have'', ''has''}"

definition remove_punctuation :: "string \<Rightarrow> string" where
  "remove_punctuation s = map (\<lambda>c. if is_word_char c \<or> is_space c then c else CHR '' '') s"

definition extract_keywords_from_text :: "string \<Rightarrow> int \<Rightarrow> string list" where
  "extract_keywords_from_text t min_length =
     (let words = split (remove_punctuation (lower t))
      in filter (\<lambda>word. int (length word) \<ge> min_length \<and> word \<notin> helper_stop_words) words)"

text \<open>\<open>PatternAgent._extract_keywords\<close>, the extractor the pattern detector calls: the test
  on length and stop words is made on the word as split, the punctuation is stripped from the
  words that pass.\<close>

definition stop_words :: "string set" where
  "stop_words =
     {''i'', ''am'', ''have'', ''been'', ''having'', ''feel'', ''feeling'',
      ''the'', ''a'', ''an'', ''and'', ''or'', ''but'', ''in'', ''on'', ''at'',
      ''to'', ''for'', ''of'', ''with'', ''my'', ''me'', ''is'', ''was'', ''are''}"

definition extract_keywords :: "string \<Rightarrow> string list" where
  "extract_keywords t =
     (let words = split (lower t)
      in map (strip ''.,!?;:'') (filter (\<lambda>word. length word > 3 \<and> word \<notin> stop_words) words))"

section \<open>PatternAgent: recurring symptoms\<close>

definition PATTERN_REPEAT_THRESHOLD :: nat where
  "PATTERN_REPEAT_THRESHOLD = 2"

record occurrence =
  occ_keywords :: "string list"
  occ_timestamp :: string
  occ_full_text :: string

record pattern =
  symptom_keyword :: string
  occurrence_count :: nat
  dates :: "string list"
  reports :: "string list"

text \<open>The result dictionary: \<open>has_patterns\<close> false with a message, or true with the patterns
  and a message.\<close>

datatype pattern_result = No_patterns string | Has_patterns "pattern list" string

text \<open>\<open>collections.Counter\<close> over a list: a dictionary, so the keys come in the order of
  their first occurrence, each with the number of its occurrences.\<close>

fun counter_add :: "string \<Rightarrow> (string \<times> nat) list \<Rightarrow> (string \<times> nat) list" where
  "counter_add k [] = [(k, 1)]"
| "counter_add k ((k', n) # rest) =
     (if k = k' then (k', n + 1) # rest else (k', n) # counter_add k rest)"

definition counter :: "string list \<Rightarrow> (string \<times> nat) list" where
  "counter ks = foldl (\<lambda>c k. counter_add k c) [] ks"

definition keyword_occurrences_of :: "event list \<Rightarrow> occurrence list" where
  "keyword_occurrences_of symptoms =
     map (\<lambda>symptom. \<lparr>occ_keywords = extract_keywords (ev_text symptom),
                      occ_timestamp = (case ev_timestamp symptom of None \<Rightarrow> [] | Some t \<Rightarrow> t),
                      occ_full_text = ev_text symptom\<rparr>) symptoms"

definition all_keywords_of :: "occurrence list \<Rightarrow> string list" where
  "all_keywords_of keyword_occurrences = concat (map occ_keywords keyword_occurrences)"

definition build_pattern :: "occurrence list \<Rightarrow> string \<times> nat \<Rightarrow> pattern" where
  "build_pattern keyword_occurrences kc =
     (let occurrences = filter (\<lambda>item. fst kc \<in> set (occ_keywords item)) keyword_occurrences
      in \<lparr>symptom_keyword = fst kc, occurrence_count = snd kc,
          dates = map occ_timestamp occurrences,
          reports = map occ_full_text occurrences\<rparr>)"

text \<open>\<open>detect_recurring_symptoms\<close>; \<open>symptoms\<close> is what \<open>get_patient_history\<close> returned for
  the symptom reports.\<close>

definition detect_recurring_symptoms :: "event list \<Rightarrow> pattern_result" where
  "detect_recurring_symptoms symptoms =
     (if length symptoms < 2 then
        No_patterns ''Insufficient data to detect patterns (need at least 2 symptom reports)''
      else
        (let keyword_occurrences = keyword_occurrences_of symptoms;
             keyword_counts = counter (all_keywords_of keyword_occurrences);
             recurring = filter (\<lambda>kc. snd kc \<ge> PATTERN_REPEAT_THRESHOLD) keyword_counts
         in if recurring = [] then No_patterns ''No recurring symptom patterns detected''
            else
              (let patterns = map (build_pattern keyword_occurrences) recurring
               in Has_patterns patterns
                    (warning_sign @ '' Detected '' @ str_of_nat (length patterns)
                     @ '' recurring symptom pattern(s)''))))"

subsection \<open>Reading a result\<close>

text \<open>The patterns a result carries (none when \<open>has_patterns\<close> is false), the symptom reports
  whose extracted keywords contain a keyword, and the timestamp an occurrence is tagged with.\<close>

fun patterns_of :: "pattern_result \<Rightarrow> pattern list" where
  "patterns_of (No_patterns m) = []"
| "patterns_of (Has_patterns ps m) = ps"

definition reports_containing :: "string \<Rightarrow> event list \<Rightarrow> event list" where
  "reports_containing k symptoms =
     filter (\<lambda>s. k \<in> set (extract_keywords (ev_text s))) symptoms"

definition timestamp_or_empty :: "event \<Rightarrow> string" where
  "timestamp_or_empty e = (case ev_timestamp e of None \<Rightarrow> [] | Some t \<Rightarrow> t)"

definition keywords_of_history :: "event list \<Rightarrow> string list" where
  "keywords_of_history symptoms = concat (map (\<lambda>s. extract_keywords (ev_text s)) symptoms)"

section \<open>PatternAgent: correlation with medications\<close>

text \<open>
  A \<open>datetime\<close> is the number of microseconds from a fixed origin. \<open>datetime.fromisoformat\<close>
  belongs to the Python library and is a parameter of the model: it gives the instant a string
  denotes, or \<open>None\<close> where the library raises \<open>ValueError\<close>. The difference of two instants
  is a \<open>timedelta\<close>, which Python keeps normalised with the seconds and microseconds
  non-negative, so that its \<open>days\<close> is the floor of the difference in days. All instants
  are naive, as those of \<open>datetime.utcnow().isoformat()\<close>, with which the ingestion stamps
  events.
\<close>

type_synonym datetime = int

definition microseconds_per_day :: int where
  "microseconds_per_day = 86400000000"

definition timedelta_days :: "int \<Rightarrow> int" where
  "timedelta_days delta = delta div microseconds_per_day"

text \<open>\<open>time_diff = abs((symptom_time - rx_time).days)\<close>\<close>

definition time_diff :: "datetime \<Rightarrow> datetime \<Rightarrow> int" where
  "time_diff symptom_time rx_time = \<bar>timedelta_days (symptom_time - rx_time)\<bar>"

record correlation =
  symptom_text :: string
  symptom_date :: string
  prescription_drugs :: "string list"
  prescription_date :: string
  days_apart :: int

datatype correlation_result = No_correlation string | Correlation_found "correlation list" string

text \<open>The record appended for a symptom and a prescription, whose timestamps are both
  present when it is built.\<close>

definition make_correlation :: "event \<Rightarrow> string \<Rightarrow> event \<Rightarrow> string \<Rightarrow> int \<Rightarrow> correlation" where
  "make_correlation symptom symptom_ts rx rx_ts d =
     \<lparr>symptom_text = ev_text symptom, symptom_date = symptom_ts,
      prescription_drugs = (case ev_drugs rx of None \<Rightarrow> [] | Some ds \<Rightarrow> ds),
      prescription_date = rx_ts, days_apart = d\<rparr>"

text \<open>The inner loop, over the prescriptions, for one symptom whose time has been read.\<close>

fun correlate_rx ::
  "(string \<Rightarrow> datetime option) \<Rightarrow> event \<Rightarrow> string \<Rightarrow> datetime \<Rightarrow> event list
     \<Rightarrow> error + correlation list" where
  "correlate_rx fromisoformat symptom symptom_ts symptom_time [] = Inr []"
| "correlate_rx fromisoformat symptom symptom_ts symptom_time (rx # rest) =
     (case ev_timestamp rx of
        None \<Rightarrow> Inl KeyError
      | Some rx_ts \<Rightarrow>
          (case fromisoformat rx_ts of
             None \<Rightarrow> Inl ValueError
           | Some rx_time \<Rightarrow>
               (case correlate_rx fromisoformat symptom symptom_ts symptom_time rest of
                  Inl e \<Rightarrow> Inl e
                | Inr cs \<Rightarrow>
                    (if time_diff symptom_time rx_time \<le> 7 then
                       Inr (make_correlation symptom symptom_ts rx rx_ts
                              (time_diff symptom_time rx_time) # cs)
                     else Inr cs))))"

text \<open>The outer loop, over the matching symptoms.\<close>

fun correlate_symptoms ::
  "(string \<Rightarrow> datetime option) \<Rightarrow> event list \<Rightarrow> event list \<Rightarrow> error + correlation list" where
  "correlate_symptoms fromisoformat [] prescriptions = Inr []"
| "correlate_symptoms fromisoformat (symptom # rest) prescriptions =
     (case ev_timestamp symptom of
        None \<Rightarrow> Inl KeyError
      | Some symptom_ts \<Rightarrow>
          (case fromisoformat symptom_ts of
             None \<Rightarrow> Inl ValueError
           | Some symptom_time \<Rightarrow>
               (case correlate_rx fromisoformat symptom symptom_ts symptom_time prescriptions of
                  Inl e \<Rightarrow> Inl e
                | Inr cs \<Rightarrow>
                    (case correlate_symptoms fromisoformat rest prescriptions of
                       Inl e \<Rightarrow> Inl e
                     | Inr cs' \<Rightarrow> Inr (cs @ cs')))))"

definition quoted :: "string \<Rightarrow> string" where
  "quoted s = [CHR 0x27] @ s @ [CHR 0x27]"

text \<open>\<open>correlate_with_medications\<close>; \<open>symptoms\<close> and \<open>prescriptions\<close> are what
  \<open>get_patient_history\<close> returned. An exception of the source is the value \<open>Inl\<close>.\<close>

definition correlate_with_medications ::
  "(string \<Rightarrow> datetime option) \<Rightarrow> event list \<Rightarrow> event list \<Rightarrow> string
     \<Rightarrow> error + correlation_result" where
  "correlate_with_medications fromisoformat symptoms prescriptions kw =
     (if prescriptions = [] then Inr (No_correlation ''No prescription records to correlate'')
      else
        (let matching_symptoms =
               filter (\<lambda>s. str_contains (lower (ev_text s)) (lower kw)) symptoms
         in if matching_symptoms = [] then
              Inr (No_correlation (''No reports found containing '' @ quoted kw))
            else
              (case correlate_symptoms fromisoformat matching_symptoms prescriptions of
                 Inl e \<Rightarrow> Inl e
               | Inr correlations \<Rightarrow>
                   (if correlations = [] then
                      Inr (No_correlation (''No temporal correlation found between '' @ quoted kw
                                           @ '' and prescriptions''))
                    else
                      Inr (Correlation_found correlations
                             (warning_sign @ '' Found '' @ str_of_nat (length correlations)
                              @ '' temporal correlation(s) between symptom and medication timing''))))))"

fun correlations_of :: "correlation_result \<Rightarrow> correlation list" where
  "correlations_of (No_correlation m) = []"
| "correlations_of (Correlation_found cs m) = cs"

text \<open>An event whose timestamp is present and is accepted by the parser.\<close>

definition parses :: "(string \<Rightarrow> datetime option) \<Rightarrow> event \<Rightarrow> bool" where
  "parses f e = (case ev_timestamp e of None \<Rightarrow> False | Some ts \<Rightarrow> f ts \<noteq> None)"

section \<open>MemoryAgent: the order of a history\<close>

text \<open>The sort of \<open>get_patient_history\<close>: by the timestamp string, newest first. Python's
  \<open>sort(reverse=True)\<close> is the stable ascending sort of the reversed list, reversed.\<close>

definition sort_newest_first :: "event list \<Rightarrow> event list" where
  "sort_newest_first events =
     rev (sort_key (\<lambda>x. case ev_timestamp x of None \<Rightarrow> [] | Some t \<Rightarrow> t) (rev events))"

section \<open>Properties of the SafetyAgent\<close>

lemma involves_iff:
  "involves (lower nd) (map lower cur) i \<longleftrightarrow>
     (\<exists>d\<in>set cur. {lower nd, lower d} = {lower (drug_a i), lower (drug_b i)})"
proof -
  have "involves (lower nd) (map lower cur) i \<longleftrightarrow>
          (\<exists>d\<in>set cur. (lower (drug_a i) = lower nd \<and> lower (drug_b i) = lower d)
                        \<or> (lower (drug_b i) = lower nd \<and> lower (drug_a i) = lower d))"
    unfolding involves_def Let_def set_map image_iff by blast
  also have "\<dots> \<longleftrightarrow>
          (\<exists>d\<in>set cur. {lower nd, lower d} = {lower (drug_a i), lower (drug_b i)})"
    unfolding doubleton_eq_iff by (rule bex_cong [OF refl]) auto
  finally show ?thesis .
qed

lemma find_interactions_nonempty_iff:
  "find_interactions all_interactions nd cur \<noteq> [] \<longleftrightarrow>
     (\<exists>i\<in>set all_interactions. \<exists>d\<in>set cur.
        {lower nd, lower d} = {lower (drug_a i), lower (drug_b i)})"
  by (simp add: find_interactions_def filter_empty_conv involves_iff)

lemma safe_iff:
  "safe (check_new_medication prescriptions all_interactions nd) \<longleftrightarrow>
     find_interactions all_interactions nd (get_patient_medications prescriptions) = []"
  by (simp add: check_new_medication_def Let_def find_interactions_def involves_def)

lemma details_sym:
  "get_interaction_details all_interactions a b = get_interaction_details all_interactions b a"
  unfolding get_interaction_details_def Let_def
  by (rule arg_cong [where f = "\<lambda>p. find p all_interactions"]) (rule ext, blast)

lemma severity_value:
  "(case severity_order (lower (case severity i of None \<Rightarrow> ''mild'' | Some s \<Rightarrow> s)) of
      None \<Rightarrow> 1 | Some n \<Rightarrow> n) = severity_rank i"
  by (auto simp: severity_order_def severity_rank_def lower_def lower_char_def split: option.splits)


lemma severity_rank_range: "severity_rank i \<in> {1, 2, 3}"
  by (simp add: severity_rank_def split: option.splits)

lemma max_severity_loop_inv:
  "v \<in> {1, 2, 3} \<Longrightarrow>
   max_severity_loop found (rank_name v, v) =
     (rank_name (Max (insert v (severity_rank ` set found))),
      Max (insert v (severity_rank ` set found)))"
proof (induction found arbitrary: v)
  case Nil
  then show ?case by simp
next
  case (Cons i rest)
  let ?r = "severity_rank i"
  have fin: "finite (severity_rank ` set rest)" by simp
  show ?case
  proof (cases "?r > v")
    case True
    have sev: "lower (case severity i of None \<Rightarrow> ''mild'' | Some s \<Rightarrow> s) = rank_name ?r"
      using True Cons.prems
      by (auto simp: severity_rank_def rank_name_def lower_def lower_char_def
               split: option.splits if_splits)
    have "max_severity_loop (i # rest) (rank_name v, v)
            = max_severity_loop rest
                (lower (case severity i of None \<Rightarrow> ''mild'' | Some s \<Rightarrow> s), ?r)"
      using True by (simp add: severity_value Let_def)
    also have "\<dots> = max_severity_loop rest (rank_name ?r, ?r)"
      by (simp only: sev)
    also have "\<dots> = (rank_name (Max (insert ?r (severity_rank ` set rest))),
                      Max (insert ?r (severity_rank ` set rest)))"
      by (rule Cons.IH) (rule severity_rank_range)
    also have "Max (insert ?r (severity_rank ` set rest))
                 = Max (insert v (severity_rank ` set (i # rest)))"
    proof -
      have "?r \<le> Max (insert ?r (severity_rank ` set rest))" using fin by simp
      with True have "v \<le> Max (insert ?r (severity_rank ` set rest))" by linarith
      then show ?thesis using fin by (simp add: max.absorb2)
    qed
    finally show ?thesis .
  next
    case False
    have "max_severity_loop (i # rest) (rank_name v, v)
            = max_severity_loop rest (rank_name v, v)"
      using False by (simp add: severity_value Let_def)
    also have "\<dots> = (rank_name (Max (insert v (severity_rank ` set rest))),
                      Max (insert v (severity_rank ` set rest)))"
      by (rule Cons.IH) (rule Cons.prems)
    also have "Max (insert v (severity_rank ` set rest))
                 = Max (insert v (severity_rank ` set (i # rest)))"
    proof -
      have "v \<le> Max (insert v (severity_rank ` set rest))" using fin by simp
      with False have "?r \<le> Max (insert v (severity_rank ` set rest))" by linarith
      then show ?thesis using fin by (simp add: max.absorb2 insert_commute [of v])
    qed
    finally show ?thesis .
  qed
qed

lemma get_max_severity_eq:
  assumes "found \<noteq> []"
  shows "get_max_severity found = rank_name (Max (severity_rank ` set found))"
proof -
  have "(1::nat) \<in> {1, 2, 3}" by simp
  from max_severity_loop_inv [OF this, of found]
  have "get_max_severity found = rank_name (Max (insert 1 (severity_rank ` set found)))"
    by (simp add: get_max_severity_def rank_name_def)
  moreover have "Max (insert 1 (severity_rank ` set found)) = Max (severity_rank ` set found)"
  proof -
    obtain i where "i \<in> set found" using assms by (cases found) auto
    then have "severity_rank i \<in> severity_rank ` set found" by simp
    moreover have "1 \<le> severity_rank i" using severity_rank_range [of i] by auto
    ultimately have "1 \<le> Max (severity_rank ` set found)"
      by (meson Max_ge finite_imageI finite_set le_trans)
    then show ?thesis using assms by (simp add: max.absorb2)
  qed
  ultimately show ?thesis by simp
qed

lemma interactions_of_verdict:
  "interactions (check_new_medication prescriptions all_interactions nd) =
     find_interactions all_interactions nd (get_patient_medications prescriptions)"
  by (simp add: check_new_medication_def Let_def find_interactions_def involves_def)

lemma involves_swap_sides: "involves n cs (swap_sides i) = involves n cs i"
  by (auto simp: involves_def swap_sides_def Let_def)

text \<open>
  C1. The check flags an interaction exactly when some stored interaction is, up to letter
  case, the unordered pair of the candidate and one of the current drugs; the records it
  reports are exactly those interactions; storing every pair the other way round changes
  nothing; and \<open>get_interaction_details\<close> gives the same answer for \<open>(a, b)\<close> and \<open>(b, a)\<close>.
\<close>

theorem safety_check_unordered_pair:
  "(\<not> safe (check_new_medication prescriptions all_interactions nd) \<longleftrightarrow>
      (\<exists>i\<in>set all_interactions. \<exists>d\<in>set (get_patient_medications prescriptions).
         {lower nd, lower d} = {lower (drug_a i), lower (drug_b i)}))
   \<and> set (interactions (check_new_medication prescriptions all_interactions nd)) =
       {i \<in> set all_interactions. \<exists>d\<in>set (get_patient_medications prescriptions).
          {lower nd, lower d} = {lower (drug_a i), lower (drug_b i)}}
   \<and> safe (check_new_medication prescriptions (map swap_sides all_interactions) nd) =
       safe (check_new_medication prescriptions all_interactions nd)
   \<and> get_interaction_details all_interactions a b = get_interaction_details all_interactions b a"
proof (intro conjI)
  show "\<not> safe (check_new_medication prescriptions all_interactions nd) \<longleftrightarrow>
      (\<exists>i\<in>set all_interactions. \<exists>d\<in>set (get_patient_medications prescriptions).
         {lower nd, lower d} = {lower (drug_a i), lower (drug_b i)})"
    by (simp only: safe_iff find_interactions_nonempty_iff)
  show "set (interactions (check_new_medication prescriptions all_interactions nd)) =
       {i \<in> set all_interactions. \<exists>d\<in>set (get_patient_medications prescriptions).
          {lower nd, lower d} = {lower (drug_a i), lower (drug_b i)}}"
    by (simp only: interactions_of_verdict find_interactions_def set_filter involves_iff)
  show "safe (check_new_medication prescriptions (map swap_sides all_interactions) nd) =
       safe (check_new_medication prescriptions all_interactions nd)"
    by (simp add: safe_iff find_interactions_def filter_empty_conv involves_swap_sides)
  show "get_interaction_details all_interactions a b = get_interaction_details all_interactions b a"
    by (rule details_sym)
qed

theorem safety_check_unordered_pair_witness:
  "\<not> safe (check_new_medication
             [\<lparr>ev_text = ''rx'', ev_timestamp = None, ev_drugs = Some [''Aspirin'']\<rparr>]
             [\<lparr>drug_a = ''Warfarin'', drug_b = ''aspirin'', severity = Some ''severe'',
               explanation = ''bleeding''\<rparr>] ''warfarin'')
   \<and> \<not> safe (check_new_medication
             [\<lparr>ev_text = ''rx'', ev_timestamp = None, ev_drugs = Some [''Aspirin'']\<rparr>]
             [\<lparr>drug_a = ''aspirin'', drug_b = ''Warfarin'', severity = Some ''severe'',
               explanation = ''bleeding''\<rparr>] ''warfarin'')"
proof -
  let ?rx = "[\<lparr>ev_text = ''rx'', ev_timestamp = None, ev_drugs = Some [''Aspirin'']\<rparr>]"
  let ?i = "\<lparr>drug_a = ''Warfarin'', drug_b = ''aspirin'', severity = Some ''severe'',
             explanation = ''bleeding''\<rparr>"
  have cur: "get_patient_medications ?rx = [''Aspirin'']"
    by (simp add: get_patient_medications_def)
  have l1: "lower ''warfarin'' = lower ''Warfarin''" by code_simp
  have l2: "lower ''Aspirin'' = lower ''aspirin''" by code_simp
  have ex: "\<exists>i\<in>set [?i]. \<exists>d\<in>set (get_patient_medications ?rx).
              {lower ''warfarin'', lower d} = {lower (drug_a i), lower (drug_b i)}"
    by (simp add: cur l1 l2)
  have flagged: "\<not> safe (check_new_medication ?rx [?i] ''warfarin'')"
    using safety_check_unordered_pair [of ?rx "[?i]" "''warfarin''"] ex by blast
  moreover have "safe (check_new_medication ?rx (map swap_sides [?i]) ''warfarin'') =
                 safe (check_new_medication ?rx [?i] ''warfarin'')"
    using safety_check_unordered_pair [of ?rx "[?i]" "''warfarin''"] by blast
  ultimately show ?thesis by (simp add: swap_sides_def)
qed

text \<open>
  C2. Whenever at least one interaction applies, \<open>max_severity\<close> names the greatest rank among
  the applying records, with severe 3, moderate 2, mild 1 in any letter case, and with rank 1
  for a record whose severity is another value or is missing; the computation is total.
\<close>

theorem max_severity_is_max_rank:
  "(found \<noteq> [] \<longrightarrow> get_max_severity found = rank_name (Max (severity_rank ` set found)))
   \<and> (\<not> safe (check_new_medication prescriptions all_interactions nd) \<longrightarrow>
        max_severity (check_new_medication prescriptions all_interactions nd) =
          Some (rank_name (Max (severity_rank `
                  set (interactions (check_new_medication prescriptions all_interactions nd))))))"
proof (intro conjI impI)
  assume "found \<noteq> []"
  then show "get_max_severity found = rank_name (Max (severity_rank ` set found))"
    by (rule get_max_severity_eq)
next
  let ?cur = "get_patient_medications prescriptions"
  let ?f = "find_interactions all_interactions nd ?cur"
  assume "\<not> safe (check_new_medication prescriptions all_interactions nd)"
  then have ne: "?f \<noteq> []" by (simp add: safe_iff)
  then have cur: "?cur \<noteq> []" by (auto simp: find_interactions_def involves_def)
  have "max_severity (check_new_medication prescriptions all_interactions nd)
          = Some (get_max_severity ?f)"
    using ne cur by (simp add: check_new_medication_def Let_def)
  then show "max_severity (check_new_medication prescriptions all_interactions nd) =
          Some (rank_name (Max (severity_rank `
                  set (interactions (check_new_medication prescriptions all_interactions nd)))))"
    by (simp only: interactions_of_verdict get_max_severity_eq [OF ne])
qed

theorem max_severity_is_max_rank_witness:
  "get_max_severity
     [\<lparr>drug_a = ''a'', drug_b = ''b'', severity = Some ''Mild'', explanation = []\<rparr>,
      \<lparr>drug_a = ''a'', drug_b = ''c'', severity = Some ''SEVERE'', explanation = []\<rparr>,
      \<lparr>drug_a = ''a'', drug_b = ''d'', severity = Some ''critical'', explanation = []\<rparr>,
      \<lparr>drug_a = ''a'', drug_b = ''e'', severity = None, explanation = []\<rparr>,
      \<lparr>drug_a = ''a'', drug_b = ''f'', severity = Some ''moderate'', explanation = []\<rparr>]
   = ''severe''"
proof -
  let ?found =
    "[\<lparr>drug_a = ''a'', drug_b = ''b'', severity = Some ''Mild'', explanation = []\<rparr>,
      \<lparr>drug_a = ''a'', drug_b = ''c'', severity = Some ''SEVERE'', explanation = []\<rparr>,
      \<lparr>drug_a = ''a'', drug_b = ''d'', severity = Some ''critical'', explanation = []\<rparr>,
      \<lparr>drug_a = ''a'', drug_b = ''e'', severity = None, explanation = []\<rparr>,
      \<lparr>drug_a = ''a'', drug_b = ''f'', severity = Some ''moderate'', explanation = []\<rparr>]"
  have ne: "?found \<noteq> []" by simp
  have m: "rank_name (Max (severity_rank ` set ?found)) = ''severe''" by code_simp
  from max_severity_is_max_rank [of ?found] ne m show ?thesis by simp
qed

text \<open>
  C3. With no current drug the verdict is safe and carries the message
  "No current medications on record."; with current drugs and no applying interaction the
  verdict is safe and carries the message "No known interactions found between ... and current
  medications.", which is never the first one. Both are verdicts, not errors.
\<close>

theorem no_data_versus_clear:
  "(get_patient_medications prescriptions = [] \<longrightarrow>
      safe (check_new_medication prescriptions all_interactions nd)
      \<and> message (check_new_medication prescriptions all_interactions nd) =
          ''No current medications on record.'')
   \<and> (get_patient_medications prescriptions \<noteq> []
        \<and> find_interactions all_interactions nd (get_patient_medications prescriptions) = [] \<longrightarrow>
      safe (check_new_medication prescriptions all_interactions nd)
      \<and> message (check_new_medication prescriptions all_interactions nd) =
          ''No known interactions found between '' @ nd @ '' and current medications.''
      \<and> message (check_new_medication prescriptions all_interactions nd) \<noteq>
          ''No current medications on record.'')"
  by (simp add: check_new_medication_def Let_def)

theorem no_data_versus_clear_witness:
  "message (check_new_medication []
      [\<lparr>drug_a = ''Warfarin'', drug_b = ''Aspirin'', severity = Some ''severe'',
        explanation = []\<rparr>] ''Aspirin'') = ''No current medications on record.''
   \<and> message (check_new_medication
      [\<lparr>ev_text = ''rx'', ev_timestamp = None, ev_drugs = Some [''Tylenol'']\<rparr>] [] ''Aspirin'')
      = ''No known interactions found between Aspirin and current medications.''"
proof -
  let ?rx = "[\<lparr>ev_text = ''rx'', ev_timestamp = None, ev_drugs = Some [''Tylenol'']\<rparr>]"
  have e: "get_patient_medications [] = []"
    by (simp add: get_patient_medications_def)
  have c: "get_patient_medications ?rx \<noteq> []
           \<and> find_interactions [] ''Aspirin'' (get_patient_medications ?rx) = []"
    by (simp add: get_patient_medications_def find_interactions_def)
  from no_data_versus_clear [of "[]" _ "''Aspirin''"] e
       no_data_versus_clear [of ?rx "[]" "''Aspirin''"] c
  show ?thesis by simp
qed

text \<open>
  C4. The checker lower-cases the names it compares and does not trim them. The candidate
  "Warfarin " with a trailing blank, which \<open>clean_drug_name\<close> makes equal to "Warfarin", is
  reported safe for a patient on Aspirin though a severe interaction of Warfarin and Aspirin
  is stored, while the candidate "Warfarin" is flagged; \<open>get_interaction_details\<close> finds the
  pair for the one name and not for the other.
\<close>

theorem untrimmed_candidate_reported_safe:
  "clean_drug_name ''Warfarin '' = clean_drug_name ''Warfarin''
   \<and> safe (check_new_medication
        [\<lparr>ev_text = ''rx'', ev_timestamp = None, ev_drugs = Some [''Aspirin'']\<rparr>]
        [\<lparr>drug_a = ''Warfarin'', drug_b = ''Aspirin'', severity = Some ''severe'',
          explanation = ''bleeding''\<rparr>] ''Warfarin '')
   \<and> \<not> safe (check_new_medication
        [\<lparr>ev_text = ''rx'', ev_timestamp = None, ev_drugs = Some [''Aspirin'']\<rparr>]
        [\<lparr>drug_a = ''Warfarin'', drug_b = ''Aspirin'', severity = Some ''severe'',
          explanation = ''bleeding''\<rparr>] ''Warfarin'')
   \<and> get_interaction_details
        [\<lparr>drug_a = ''Warfarin'', drug_b = ''Aspirin'', severity = Some ''severe'',
          explanation = ''bleeding''\<rparr>] ''Warfarin '' ''Aspirin'' = None
   \<and> get_interaction_details
        [\<lparr>drug_a = ''Warfarin'', drug_b = ''Aspirin'', severity = Some ''severe'',
          explanation = ''bleeding''\<rparr>] ''Warfarin'' ''Aspirin''
       = Some \<lparr>drug_a = ''Warfarin'', drug_b = ''Aspirin'', severity = Some ''severe'',
          explanation = ''bleeding''\<rparr>"
proof -
  let ?rx = "[\<lparr>ev_text = ''rx'', ev_timestamp = None, ev_drugs = Some [''Aspirin'']\<rparr>]"
  have c: "clean_drug_name ''Warfarin '' = clean_drug_name ''Warfarin''" by code_simp
  have cur: "get_patient_medications ?rx = [''Aspirin'']"
    by (simp add: get_patient_medications_def)
  have l1: "lower ''Warfarin '' = ''warfarin ''" by code_simp
  have l2: "lower ''Warfarin'' = ''warfarin''" by code_simp
  have l3: "lower ''Aspirin'' = ''aspirin''" by code_simp
  show ?thesis
    by (simp add: c safe_iff cur find_interactions_def involves_def
          get_interaction_details_def l1 l2 l3)
qed

section \<open>Properties of the pattern detector\<close>

lemma map_of_counter_add:
  "map_of (counter_add k c) k' =
     (if k' = k then Some (case map_of c k of None \<Rightarrow> 1 | Some n \<Rightarrow> n + 1) else map_of c k')"
  by (induction k c rule: counter_add.induct) auto

lemma fst_counter_add: "fst ` set (counter_add k c) = insert k (fst ` set c)"
  by (induction k c rule: counter_add.induct) auto

lemma distinct_counter_add:
  "distinct (map fst c) \<Longrightarrow> distinct (map fst (counter_add k c))"
  by (induction k c rule: counter_add.induct) (auto simp: fst_counter_add)

lemma counter_foldl:
  "distinct (map fst c) \<Longrightarrow>
   distinct (map fst (foldl (\<lambda>c k. counter_add k c) c ks))
   \<and> map_of (foldl (\<lambda>c k. counter_add k c) c ks) k' =
       (case map_of c k' of
          None \<Rightarrow> if count_list ks k' = 0 then None else Some (count_list ks k')
        | Some n \<Rightarrow> Some (n + count_list ks k'))"
proof (induction ks arbitrary: c)
  case Nil
  then show ?case by (simp split: option.splits)
next
  case (Cons k ks)
  have d: "distinct (map fst (counter_add k c))"
    using Cons.prems by (rule distinct_counter_add)
  show ?case
    using Cons.IH [OF d] by (auto simp: map_of_counter_add split: option.splits)
qed

lemma counter_mem:
  "(k, n) \<in> set (counter ks) \<longleftrightarrow> k \<in> set ks \<and> n = count_list ks k"
proof -
  have d: "distinct (map fst (counter ks))"
    and m: "map_of (counter ks) k = (if count_list ks k = 0 then None else Some (count_list ks k))"
    using counter_foldl [of "[]" ks k] by (simp_all add: counter_def)
  have "(k, n) \<in> set (counter ks) \<longleftrightarrow> map_of (counter ks) k = Some n"
    using d by simp
  also have "\<dots> \<longleftrightarrow> k \<in> set ks \<and> n = count_list ks k"
    by (auto simp: m count_list_0_iff)
  finally show ?thesis .
qed

lemma all_keywords_of_history:
  "all_keywords_of (keyword_occurrences_of symptoms) = keywords_of_history symptoms"
  by (simp add: all_keywords_of_def keyword_occurrences_of_def keywords_of_history_def comp_def)

lemma build_pattern_fields:
  "symptom_keyword (build_pattern (keyword_occurrences_of symptoms) (k, n)) = k"
  "occurrence_count (build_pattern (keyword_occurrences_of symptoms) (k, n)) = n"
  "dates (build_pattern (keyword_occurrences_of symptoms) (k, n)) =
     map timestamp_or_empty (reports_containing k symptoms)"
  "reports (build_pattern (keyword_occurrences_of symptoms) (k, n)) =
     map ev_text (reports_containing k symptoms)"
  by (simp_all add: build_pattern_def keyword_occurrences_of_def reports_containing_def
        timestamp_or_empty_def filter_map comp_def Let_def)

lemma patterns_of_detect:
  "patterns_of (detect_recurring_symptoms symptoms) =
     (if length symptoms < 2 then []
      else map (build_pattern (keyword_occurrences_of symptoms))
             (filter (\<lambda>kc. snd kc \<ge> PATTERN_REPEAT_THRESHOLD)
                (counter (keywords_of_history symptoms))))"
  by (simp add: detect_recurring_symptoms_def Let_def all_keywords_of_history)

lemma pattern_mem:
  assumes "p \<in> set (patterns_of (detect_recurring_symptoms symptoms))"
  obtains n where "2 \<le> length symptoms"
    and "p = build_pattern (keyword_occurrences_of symptoms) (symptom_keyword p, n)"
    and "symptom_keyword p \<in> set (keywords_of_history symptoms)"
    and "n = count_list (keywords_of_history symptoms) (symptom_keyword p)"
    and "PATTERN_REPEAT_THRESHOLD \<le> n"
proof -
  from assms have len: "2 \<le> length symptoms"
    by (auto simp: patterns_of_detect split: if_splits)
  with assms obtain kc where kc: "kc \<in> set (counter (keywords_of_history symptoms))"
    "PATTERN_REPEAT_THRESHOLD \<le> snd kc" "p = build_pattern (keyword_occurrences_of symptoms) kc"
    by (auto simp: patterns_of_detect)
  obtain k n where kn: "kc = (k, n)" by (cases kc)
  have k: "symptom_keyword p = k" using kc(3) kn by (simp add: build_pattern_fields)
  from kc(1) kn have "k \<in> set (keywords_of_history symptoms)"
    "n = count_list (keywords_of_history symptoms) k"
    by (simp_all add: counter_mem)
  with that [of n] len kc kn k show ?thesis by simp
qed

lemma count_list_concat:
  "count_list (concat xss) k = sum_list (map (\<lambda>xs. count_list xs k) xss)"
  by (induction xss) simp_all

lemma reported_iff:
  "k \<in> symptom_keyword ` set (patterns_of (detect_recurring_symptoms symptoms)) \<longleftrightarrow>
     2 \<le> length symptoms
     \<and> PATTERN_REPEAT_THRESHOLD \<le> count_list (keywords_of_history symptoms) k"
proof
  assume "k \<in> symptom_keyword ` set (patterns_of (detect_recurring_symptoms symptoms))"
  then obtain p where p: "p \<in> set (patterns_of (detect_recurring_symptoms symptoms))"
    and k: "symptom_keyword p = k" by auto
  from p obtain n where "2 \<le> length symptoms"
    and "n = count_list (keywords_of_history symptoms) (symptom_keyword p)"
    and "PATTERN_REPEAT_THRESHOLD \<le> n"
    by (rule pattern_mem)
  then show "2 \<le> length symptoms
     \<and> PATTERN_REPEAT_THRESHOLD \<le> count_list (keywords_of_history symptoms) k"
    using k by simp
next
  let ?n = "count_list (keywords_of_history symptoms) k"
  assume a: "2 \<le> length symptoms \<and> PATTERN_REPEAT_THRESHOLD \<le> ?n"
  then have "0 < ?n" by (simp add: PATTERN_REPEAT_THRESHOLD_def)
  then have "k \<in> set (keywords_of_history symptoms)"
    using count_list_0_iff [of "keywords_of_history symptoms" k] by auto
  then have "(k, ?n) \<in> set (counter (keywords_of_history symptoms))"
    by (simp add: counter_mem)
  with a have "build_pattern (keyword_occurrences_of symptoms) (k, ?n)
                \<in> set (patterns_of (detect_recurring_symptoms symptoms))"
    by (auto simp: patterns_of_detect intro!: image_eqI [where x = "(k, ?n)"])
  then have "symptom_keyword (build_pattern (keyword_occurrences_of symptoms) (k, ?n))
               \<in> symptom_keyword ` set (patterns_of (detect_recurring_symptoms symptoms))"
    by (rule imageI)
  then show "k \<in> symptom_keyword ` set (patterns_of (detect_recurring_symptoms symptoms))"
    by (simp only: build_pattern_fields)
qed

text \<open>
  C7. Every pattern the detector returns has as \<open>occurrence_count\<close> the total number of
  occurrences of its keyword in the keywords of the whole history, and that number is at
  least the threshold, which is 2; a keyword whose total is below the threshold is the keyword
  of no returned pattern; and the pattern's \<open>dates\<close> and \<open>reports\<close> are the timestamps and the
  full texts of all the reports whose keywords contain it, in the order of the history.
\<close>

theorem recurring_patterns_meet_threshold:
  "PATTERN_REPEAT_THRESHOLD = 2
   \<and> (\<forall>p\<in>set (patterns_of (detect_recurring_symptoms symptoms)).
        occurrence_count p = count_list (keywords_of_history symptoms) (symptom_keyword p)
        \<and> PATTERN_REPEAT_THRESHOLD \<le> occurrence_count p
        \<and> dates p = map timestamp_or_empty (reports_containing (symptom_keyword p) symptoms)
        \<and> reports p = map ev_text (reports_containing (symptom_keyword p) symptoms))
   \<and> (\<forall>k. count_list (keywords_of_history symptoms) k < PATTERN_REPEAT_THRESHOLD \<longrightarrow>
        k \<notin> symptom_keyword ` set (patterns_of (detect_recurring_symptoms symptoms)))"
proof (intro conjI ballI allI impI)
  show "PATTERN_REPEAT_THRESHOLD = 2" by (simp add: PATTERN_REPEAT_THRESHOLD_def)
next
  fix p assume p: "p \<in> set (patterns_of (detect_recurring_symptoms symptoms))"
  then obtain n where b: "p = build_pattern (keyword_occurrences_of symptoms) (symptom_keyword p, n)"
    and n: "n = count_list (keywords_of_history symptoms) (symptom_keyword p)"
    and t: "PATTERN_REPEAT_THRESHOLD \<le> n"
    by (rule pattern_mem)
  have c: "occurrence_count p = n"
    by (subst b) (simp only: build_pattern_fields)
  show "occurrence_count p = count_list (keywords_of_history symptoms) (symptom_keyword p)"
    using c n by simp
  show "PATTERN_REPEAT_THRESHOLD \<le> occurrence_count p"
    using c t by simp
  show "dates p = map timestamp_or_empty (reports_containing (symptom_keyword p) symptoms)"
    by (subst b) (simp only: build_pattern_fields)
  show "reports p = map ev_text (reports_containing (symptom_keyword p) symptoms)"
    by (subst b) (simp only: build_pattern_fields)
next
  fix k assume "count_list (keywords_of_history symptoms) k < PATTERN_REPEAT_THRESHOLD"
  then show "k \<notin> symptom_keyword ` set (patterns_of (detect_recurring_symptoms symptoms))"
    by (simp add: reported_iff)
qed

theorem recurring_patterns_meet_threshold_witness:
  "\<lparr>symptom_keyword = ''headache'', occurrence_count = 2, dates = [''day1'', ''day3''],
     reports = [''headache'', ''bad headache again'']\<rparr>
     \<in> set (patterns_of (detect_recurring_symptoms
          [\<lparr>ev_text = ''headache'', ev_timestamp = Some ''day1'', ev_drugs = None\<rparr>,
           \<lparr>ev_text = ''bad headache again'', ev_timestamp = Some ''day3'', ev_drugs = None\<rparr>]))
   \<and> count_list (keywords_of_history
          [\<lparr>ev_text = ''headache'', ev_timestamp = Some ''day1'', ev_drugs = None\<rparr>,
           \<lparr>ev_text = ''bad headache again'', ev_timestamp = Some ''day3'', ev_drugs = None\<rparr>])
        ''headache'' = 2
   \<and> map timestamp_or_empty (reports_containing ''headache''
          [\<lparr>ev_text = ''headache'', ev_timestamp = Some ''day1'', ev_drugs = None\<rparr>,
           \<lparr>ev_text = ''bad headache again'', ev_timestamp = Some ''day3'', ev_drugs = None\<rparr>])
        = [''day1'', ''day3'']"
proof -
  let ?S = "[\<lparr>ev_text = ''headache'', ev_timestamp = Some ''day1'', ev_drugs = None\<rparr>,
           \<lparr>ev_text = ''bad headache again'', ev_timestamp = Some ''day3'', ev_drugs = None\<rparr>]"
  let ?p = "\<lparr>symptom_keyword = ''headache'', occurrence_count = 2, dates = [''day1'', ''day3''],
     reports = [''headache'', ''bad headache again'']\<rparr>"
  have m: "?p \<in> set (patterns_of (detect_recurring_symptoms ?S))" by code_simp
  from recurring_patterns_meet_threshold [of ?S] m
  have "occurrence_count ?p = count_list (keywords_of_history ?S) (symptom_keyword ?p)
        \<and> dates ?p = map timestamp_or_empty (reports_containing (symptom_keyword ?p) ?S)"
    by blast
  with m show ?thesis by simp
qed

text \<open>
  C8, as the claim states it, fails: in a history of two reports, the keyword "headache"
  occurring twice in the first report and in no other is returned as a recurring pattern,
  though it appears in one report only.
\<close>

theorem one_report_recurring_counterexample:
  "\<lparr>symptom_keyword = ''headache'', occurrence_count = 2, dates = [''day1''],
     reports = [''headache headache'']\<rparr>
     \<in> set (patterns_of (detect_recurring_symptoms
          [\<lparr>ev_text = ''headache headache'', ev_timestamp = Some ''day1'', ev_drugs = None\<rparr>,
           \<lparr>ev_text = ''nausea'', ev_timestamp = Some ''day3'', ev_drugs = None\<rparr>]))
   \<and> length (reports_containing ''headache''
          [\<lparr>ev_text = ''headache headache'', ev_timestamp = Some ''day1'', ev_drugs = None\<rparr>,
           \<lparr>ev_text = ''nausea'', ev_timestamp = Some ''day3'', ev_drugs = None\<rparr>]) = 1
   \<and> \<not> PATTERN_REPEAT_THRESHOLD \<le> length (reports_containing ''headache''
          [\<lparr>ev_text = ''headache headache'', ev_timestamp = Some ''day1'', ev_drugs = None\<rparr>,
           \<lparr>ev_text = ''nausea'', ev_timestamp = Some ''day3'', ev_drugs = None\<rparr>])"
  by code_simp

text \<open>
  C8, amended. A keyword is returned as a recurring pattern exactly when the history has at
  least two reports and the keyword's occurrences, summed over the reports and counting
  every occurrence within a report, number at least the threshold; a returned keyword appears
  in at least one report.
\<close>

theorem recurring_counts_occurrences:
  "(k \<in> symptom_keyword ` set (patterns_of (detect_recurring_symptoms symptoms)) \<longleftrightarrow>
      2 \<le> length symptoms
      \<and> PATTERN_REPEAT_THRESHOLD
          \<le> sum_list (map (\<lambda>s. count_list (extract_keywords (ev_text s)) k) symptoms))
   \<and> (k \<in> symptom_keyword ` set (patterns_of (detect_recurring_symptoms symptoms)) \<longrightarrow>
      1 \<le> length (reports_containing k symptoms))"
proof (intro conjI impI)
  have s: "sum_list (map (\<lambda>s. count_list (extract_keywords (ev_text s)) k) symptoms)
             = count_list (keywords_of_history symptoms) k"
    by (simp add: keywords_of_history_def count_list_concat comp_def)
  show "k \<in> symptom_keyword ` set (patterns_of (detect_recurring_symptoms symptoms)) \<longleftrightarrow>
      2 \<le> length symptoms
      \<and> PATTERN_REPEAT_THRESHOLD
          \<le> sum_list (map (\<lambda>s. count_list (extract_keywords (ev_text s)) k) symptoms)"
    by (simp only: s reported_iff)
next
  assume "k \<in> symptom_keyword ` set (patterns_of (detect_recurring_symptoms symptoms))"
  then have "0 < count_list (keywords_of_history symptoms) k"
    by (simp add: reported_iff PATTERN_REPEAT_THRESHOLD_def)
  then have "k \<in> set (keywords_of_history symptoms)"
    using count_list_0_iff [of "keywords_of_history symptoms" k] by auto
  then obtain s where "s \<in> set symptoms" "k \<in> set (extract_keywords (ev_text s))"
    by (auto simp: keywords_of_history_def)
  then have "s \<in> set (reports_containing k symptoms)"
    by (simp add: reports_containing_def)
  then have "reports_containing k symptoms \<noteq> []" by auto
  then show "1 \<le> length (reports_containing k symptoms)"
    by (cases "reports_containing k symptoms") simp_all
qed

theorem recurring_counts_occurrences_witness:
  "''headache'' \<in> symptom_keyword ` set (patterns_of (detect_recurring_symptoms
          [\<lparr>ev_text = ''headache headache'', ev_timestamp = Some ''day1'', ev_drugs = None\<rparr>,
           \<lparr>ev_text = ''nausea'', ev_timestamp = Some ''day3'', ev_drugs = None\<rparr>]))
   \<and> ''nausea'' \<notin> symptom_keyword ` set (patterns_of (detect_recurring_symptoms
          [\<lparr>ev_text = ''headache headache'', ev_timestamp = Some ''day1'', ev_drugs = None\<rparr>,
           \<lparr>ev_text = ''nausea'', ev_timestamp = Some ''day3'', ev_drugs = None\<rparr>]))"
proof -
  let ?S = "[\<lparr>ev_text = ''headache headache'', ev_timestamp = Some ''day1'', ev_drugs = None\<rparr>,
           \<lparr>ev_text = ''nausea'', ev_timestamp = Some ''day3'', ev_drugs = None\<rparr>]"
  have h: "2 \<le> length ?S \<and> PATTERN_REPEAT_THRESHOLD
          \<le> sum_list (map (\<lambda>s. count_list (extract_keywords (ev_text s)) ''headache'') ?S)"
    by code_simp
  have n: "\<not> PATTERN_REPEAT_THRESHOLD
          \<le> sum_list (map (\<lambda>s. count_list (extract_keywords (ev_text s)) ''nausea'') ?S)"
    by code_simp
  from recurring_counts_occurrences [of "''headache''" ?S] h
       recurring_counts_occurrences [of "''nausea''" ?S] n
  show ?thesis by blast
qed

section \<open>Properties of the temporal correlator\<close>

lemma time_diff_whole_days:
  "time_diff (a * microseconds_per_day) (b * microseconds_per_day) = \<bar>a - b\<bar>"
proof -
  have "a * microseconds_per_day - b * microseconds_per_day = (a - b) * microseconds_per_day"
    by (simp add: algebra_simps)
  then show ?thesis
    by (simp add: time_diff_def timedelta_days_def microseconds_per_day_def)
qed

lemma correlate_rx_total:
  "\<forall>rx\<in>set rxs. parses f rx \<Longrightarrow> \<exists>cs. correlate_rx f s sts st rxs = Inr cs"
proof (induction rxs)
  case Nil
  then show ?case by simp
next
  case (Cons rx rxs)
  then obtain cs where "correlate_rx f s sts st rxs = Inr cs" by auto
  moreover from Cons.prems obtain ts t where "ev_timestamp rx = Some ts" "f ts = Some t"
    by (auto simp: parses_def split: option.splits)
  ultimately show ?case by simp
qed

lemma correlate_rx_set:
  "correlate_rx f s sts st rxs = Inr cs \<Longrightarrow>
   set cs = {make_correlation s sts r rts (time_diff st rt) | r rts rt.
               r \<in> set rxs \<and> ev_timestamp r = Some rts \<and> f rts = Some rt
               \<and> time_diff st rt \<le> 7}"
proof (induction rxs arbitrary: cs)
  case Nil
  then show ?case by auto
next
  case (Cons rx rxs)
  from Cons.prems obtain rts rt cs' where rx: "ev_timestamp rx = Some rts" "f rts = Some rt"
    and rest: "correlate_rx f s sts st rxs = Inr cs'"
    and cs: "cs = (if time_diff st rt \<le> 7
                   then make_correlation s sts rx rts (time_diff st rt) # cs' else cs')"
    by (auto split: option.splits sum.splits if_splits)
  note IH = Cons.IH [OF rest]
  show ?case
  proof (intro equalityI subsetI)
    fix c assume "c \<in> set cs"
    then consider "time_diff st rt \<le> 7" "c = make_correlation s sts rx rts (time_diff st rt)"
      | "c \<in> set cs'" using cs by (auto split: if_splits)
    then show "c \<in> {make_correlation s sts r rts (time_diff st rt) | r rts rt.
               r \<in> set (rx # rxs) \<and> ev_timestamp r = Some rts \<and> f rts = Some rt
               \<and> time_diff st rt \<le> 7}"
    proof cases
      case 1
      with rx show ?thesis by auto
    next
      case 2
      then show ?thesis unfolding IH by auto
    qed
  next
    fix c assume "c \<in> {make_correlation s sts r rts (time_diff st rt) | r rts rt.
               r \<in> set (rx # rxs) \<and> ev_timestamp r = Some rts \<and> f rts = Some rt
               \<and> time_diff st rt \<le> 7}"
    then obtain rx' rts' rt' where c: "c = make_correlation s sts rx' rts' (time_diff st rt')"
      and m: "rx' = rx \<or> rx' \<in> set rxs"
      and p: "ev_timestamp rx' = Some rts'" "f rts' = Some rt'" "time_diff st rt' \<le> 7"
      by auto
    from m show "c \<in> set cs"
    proof
      assume "rx' = rx"
      with rx p c cs show ?thesis by auto
    next
      assume "rx' \<in> set rxs"
      with p c have "c \<in> set cs'" unfolding IH by auto
      then show ?thesis using cs by auto
    qed
  qed
qed

lemma correlate_symptoms_total:
  "\<forall>s\<in>set ss. parses f s \<Longrightarrow> \<forall>rx\<in>set rxs. parses f rx \<Longrightarrow>
   \<exists>cs. correlate_symptoms f ss rxs = Inr cs"
proof (induction ss)
  case Nil
  then show ?case by simp
next
  case (Cons s ss)
  then obtain cs' where "correlate_symptoms f ss rxs = Inr cs'" by auto
  moreover from Cons.prems obtain ts t where "ev_timestamp s = Some ts" "f ts = Some t"
    by (auto simp: parses_def split: option.splits)
  moreover obtain cs where "correlate_rx f s ts t rxs = Inr cs"
    using correlate_rx_total [OF Cons.prems(2)] by blast
  ultimately show ?case by simp
qed

lemma correlate_symptoms_set:
  "correlate_symptoms f ss rxs = Inr cs \<Longrightarrow>
   set cs = {make_correlation e ets rx rts (time_diff et rt) | e ets et rx rts rt.
               e \<in> set ss \<and> ev_timestamp e = Some ets \<and> f ets = Some et
               \<and> rx \<in> set rxs \<and> ev_timestamp rx = Some rts \<and> f rts = Some rt
               \<and> time_diff et rt \<le> 7}"
proof (induction ss arbitrary: cs)
  case Nil
  then show ?case by auto
next
  case (Cons s ss)
  from Cons.prems obtain sts st c1 c2 where s: "ev_timestamp s = Some sts" "f sts = Some st"
    and inner: "correlate_rx f s sts st rxs = Inr c1"
    and rest: "correlate_symptoms f ss rxs = Inr c2"
    and cs: "cs = c1 @ c2"
    by (auto split: option.splits sum.splits)
  note I1 = correlate_rx_set [OF inner]
  note I2 = Cons.IH [OF rest]
  show ?case
  proof (intro equalityI subsetI)
    fix c assume "c \<in> set cs"
    then consider "c \<in> set c1" | "c \<in> set c2" using cs by auto
    then show "c \<in> {make_correlation e ets rx rts (time_diff et rt) | e ets et rx rts rt.
               e \<in> set (s # ss) \<and> ev_timestamp e = Some ets \<and> f ets = Some et
               \<and> rx \<in> set rxs \<and> ev_timestamp rx = Some rts \<and> f rts = Some rt
               \<and> time_diff et rt \<le> 7}"
    proof cases
      case 1
      then show ?thesis unfolding I1 using s by fastforce
    next
      case 2
      then show ?thesis unfolding I2 by fastforce
    qed
  next
    fix c assume "c \<in> {make_correlation e ets rx rts (time_diff et rt) | e ets et rx rts rt.
               e \<in> set (s # ss) \<and> ev_timestamp e = Some ets \<and> f ets = Some et
               \<and> rx \<in> set rxs \<and> ev_timestamp rx = Some rts \<and> f rts = Some rt
               \<and> time_diff et rt \<le> 7}"
    then obtain s' sts' st' rx rts rt
      where c: "c = make_correlation s' sts' rx rts (time_diff st' rt)"
      and m: "s' = s \<or> s' \<in> set ss"
      and p: "ev_timestamp s' = Some sts'" "f sts' = Some st'"
             "rx \<in> set rxs" "ev_timestamp rx = Some rts" "f rts = Some rt"
             "time_diff st' rt \<le> 7"
      by auto
    from m show "c \<in> set cs"
    proof
      assume "s' = s"
      with s p c have "c \<in> set c1" unfolding I1 by auto
      then show ?thesis using cs by simp
    next
      assume "s' \<in> set ss"
      with p c have "c \<in> set c2" unfolding I2 by blast
      then show ?thesis using cs by simp
    qed
  qed
qed

lemma correlate_with_medications_found:
  assumes "prescriptions \<noteq> []"
    and "s \<in> set symptoms" and "str_contains (lower (ev_text s)) (lower kw)"
    and "correlate_symptoms f
           (filter (\<lambda>s. str_contains (lower (ev_text s)) (lower kw)) symptoms) prescriptions
         = Inr cs"
  shows "\<exists>res. correlate_with_medications f symptoms prescriptions kw = Inr res
               \<and> correlations_of res = cs"
proof -
  have "filter (\<lambda>s. str_contains (lower (ev_text s)) (lower kw)) symptoms \<noteq> []"
    using assms(2,3) by (auto simp: filter_empty_conv)
  then show ?thesis
    using assms(1,4) by (simp add: correlate_with_medications_def Let_def)
qed

text \<open>
  C5. Let every prescription and every symptom that contains the keyword have a timestamp
  the parser accepts, and let a symptom
  that contains the keyword and a prescription both fall on exact calendar days, \<open>ds\<close> and
  \<open>dr\<close>. Then the correlator returns a result; the record for this symptom and this
  prescription with \<open>days_apart = |ds - dr|\<close> is among the correlations exactly when
  \<open>|ds - dr| \<le> 7\<close>; and every record carrying their two timestamps has that \<open>days_apart\<close>.
\<close>

theorem window_inclusive_at_seven_days:
  assumes "\<forall>e\<in>set symptoms. str_contains (lower (ev_text e)) (lower kw) \<longrightarrow> parses f e"
    and "\<forall>e\<in>set prescriptions. parses f e"
    and "s \<in> set symptoms" and "str_contains (lower (ev_text s)) (lower kw)"
    and "rx \<in> set prescriptions"
    and "ev_timestamp s = Some sts" and "f sts = Some (ds * microseconds_per_day)"
    and "ev_timestamp rx = Some rts" and "f rts = Some (dr * microseconds_per_day)"
  shows "\<exists>res. correlate_with_medications f symptoms prescriptions kw = Inr res
           \<and> (make_correlation s sts rx rts \<bar>ds - dr\<bar> \<in> set (correlations_of res)
                \<longleftrightarrow> \<bar>ds - dr\<bar> \<le> 7)
           \<and> (\<forall>c\<in>set (correlations_of res).
                symptom_date c = sts \<and> prescription_date c = rts \<longrightarrow> days_apart c = \<bar>ds - dr\<bar>)"
proof -
  let ?m = "filter (\<lambda>s. str_contains (lower (ev_text s)) (lower kw)) symptoms"
  have "\<forall>e\<in>set ?m. parses f e"
    using assms(1) by simp
  then obtain cs where cs: "correlate_symptoms f ?m prescriptions = Inr cs"
    using correlate_symptoms_total [OF _ assms(2)] by blast
  have ne: "prescriptions \<noteq> []" using assms(5) by auto
  obtain res where res: "correlate_with_medications f symptoms prescriptions kw = Inr res"
    and cor: "correlations_of res = cs"
    using correlate_with_medications_found [OF ne assms(3,4) cs] by blast
  note S = correlate_symptoms_set [OF cs]
  have sm: "s \<in> set ?m" using assms(3,4) by simp
  have td: "time_diff (ds * microseconds_per_day) (dr * microseconds_per_day) = \<bar>ds - dr\<bar>"
    by (rule time_diff_whole_days)
  have days: "days_apart c = \<bar>ds - dr\<bar>"
    if "c \<in> set cs" "symptom_date c = sts" "prescription_date c = rts" for c
  proof -
    from that(1) obtain e ets et r rts' rt
      where c: "c = make_correlation e ets r rts' (time_diff et rt)"
        and p: "f ets = Some et" "f rts' = Some rt"
      unfolding S by blast
    from that(2,3) c have "ets = sts" "rts' = rts" by (simp_all add: make_correlation_def)
    with p assms(7,9) have "et = ds * microseconds_per_day" "rt = dr * microseconds_per_day"
      by simp_all
    then show ?thesis using c td by (simp add: make_correlation_def)
  qed
  have "make_correlation s sts rx rts \<bar>ds - dr\<bar> \<in> set cs \<longleftrightarrow> \<bar>ds - dr\<bar> \<le> 7"
  proof
    assume m: "make_correlation s sts rx rts \<bar>ds - dr\<bar> \<in> set cs"
    then obtain e ets et r rts' rt
      where c: "make_correlation s sts rx rts \<bar>ds - dr\<bar>
                  = make_correlation e ets r rts' (time_diff et rt)"
        and w: "time_diff et rt \<le> 7"
      unfolding S by blast
    from c have "\<bar>ds - dr\<bar> = time_diff et rt" by (simp add: make_correlation_def)
    with w show "\<bar>ds - dr\<bar> \<le> 7" by simp
  next
    assume "\<bar>ds - dr\<bar> \<le> 7"
    then have "time_diff (ds * microseconds_per_day) (dr * microseconds_per_day) \<le> 7"
      by (simp only: td)
    with sm assms(5-9)
    have "make_correlation s sts rx rts
            (time_diff (ds * microseconds_per_day) (dr * microseconds_per_day)) \<in> set cs"
      unfolding S by blast
    then show "make_correlation s sts rx rts \<bar>ds - dr\<bar> \<in> set cs" by (simp only: td)
  qed
  with res cor days show ?thesis by auto
qed

theorem window_inclusive_at_seven_days_witness:
  "(\<exists>res. correlate_with_medications
       (\<lambda>t. if t = ''day0'' then Some 0
             else if t = ''day7'' then Some (7 * microseconds_per_day)
             else if t = ''day8'' then Some (8 * microseconds_per_day) else None)
       [\<lparr>ev_text = ''Dizzy today'', ev_timestamp = Some ''day7'', ev_drugs = None\<rparr>,
        \<lparr>ev_text = ''still dizzy'', ev_timestamp = Some ''day8'', ev_drugs = None\<rparr>]
       [\<lparr>ev_text = ''rx'', ev_timestamp = Some ''day0'', ev_drugs = Some [''Lisinopril'']\<rparr>]
       ''dizzy'' = Inr res
     \<and> \<lparr>symptom_text = ''Dizzy today'', symptom_date = ''day7'',
         prescription_drugs = [''Lisinopril''], prescription_date = ''day0'', days_apart = 7\<rparr>
        \<in> set (correlations_of res)
     \<and> \<lparr>symptom_text = ''still dizzy'', symptom_date = ''day8'',
         prescription_drugs = [''Lisinopril''], prescription_date = ''day0'', days_apart = 8\<rparr>
        \<notin> set (correlations_of res))"
proof -
  let ?f = "\<lambda>t. if t = ''day0'' then Some 0
             else if t = ''day7'' then Some (7 * microseconds_per_day)
             else if t = ''day8'' then Some (8 * microseconds_per_day) else None"
  let ?s7 = "\<lparr>ev_text = ''Dizzy today'', ev_timestamp = Some ''day7'', ev_drugs = None\<rparr>"
  let ?s8 = "\<lparr>ev_text = ''still dizzy'', ev_timestamp = Some ''day8'', ev_drugs = None\<rparr>"
  let ?rx = "\<lparr>ev_text = ''rx'', ev_timestamp = Some ''day0'', ev_drugs = Some [''Lisinopril'']\<rparr>"
  have all: "\<forall>e\<in>set [?s7, ?s8]. str_contains (lower (ev_text e)) (lower ''dizzy'') \<longrightarrow> parses ?f e"
    by (simp add: parses_def)
  have allrx: "\<forall>e\<in>set [?rx]. parses ?f e"
    by (simp add: parses_def)
  have k7: "str_contains (lower (ev_text ?s7)) (lower ''dizzy'')" by code_simp
  have k8: "str_contains (lower (ev_text ?s8)) (lower ''dizzy'')" by code_simp
  have r0: "?f ''day0'' = Some (0 * microseconds_per_day)" by simp
  have r7: "?f ''day7'' = Some (7 * microseconds_per_day)" by simp
  have r8: "?f ''day8'' = Some (8 * microseconds_per_day)" by simp
  from window_inclusive_at_seven_days [of "[?s7, ?s8]" "''dizzy''" ?f "[?rx]" ?s7 ?rx
         "''day7''" 7 "''day0''" 0, OF all allrx _ k7 _ _ r7 _ r0]
  obtain res where res: "correlate_with_medications ?f [?s7, ?s8] [?rx] ''dizzy'' = Inr res"
    and in7: "make_correlation ?s7 ''day7'' ?rx ''day0'' 7 \<in> set (correlations_of res)"
    by auto
  from window_inclusive_at_seven_days [of "[?s7, ?s8]" "''dizzy''" ?f "[?rx]" ?s8 ?rx
         "''day8''" 8 "''day0''" 0, OF all allrx _ k8 _ _ r8 _ r0] res
  have out8: "make_correlation ?s8 ''day8'' ?rx ''day0'' 8 \<notin> set (correlations_of res)"
    by auto
  from res in7 out8 show ?thesis
    by (intro exI [of _ res]) (simp add: make_correlation_def)
qed

text \<open>
  C6. The day difference of the source is not symmetric once a timestamp has a time of day.
  With the symptom at noon of day 0 and the prescription at midnight of day 1 it is 1, with
  the two times exchanged it is 0; the correlator stores these values as \<open>days_apart\<close>. At the
  edge of the window, a symptom seven and a half days after a prescription is 7 days apart
  and one seven and a half days before it is 8 days apart.
\<close>

theorem day_difference_not_symmetric:
  "time_diff 43200000000 86400000000 = 1
   \<and> time_diff 86400000000 43200000000 = 0
   \<and> time_diff 648000000000 0 = 7
   \<and> time_diff 0 648000000000 = 8
   \<and> map_sum id (\<lambda>res. map days_apart (correlations_of res)) (correlate_with_medications
        (\<lambda>t. if t = ''2024-01-01T12:00:00'' then Some 43200000000
              else if t = ''2024-01-02T00:00:00'' then Some 86400000000 else None)
        [\<lparr>ev_text = ''dizzy'', ev_timestamp = Some ''2024-01-01T12:00:00'', ev_drugs = None\<rparr>]
        [\<lparr>ev_text = ''rx'', ev_timestamp = Some ''2024-01-02T00:00:00'', ev_drugs = Some [''x'']\<rparr>]
        ''dizzy'') = Inr [1]
   \<and> map_sum id (\<lambda>res. map days_apart (correlations_of res)) (correlate_with_medications
        (\<lambda>t. if t = ''2024-01-01T12:00:00'' then Some 43200000000
              else if t = ''2024-01-02T00:00:00'' then Some 86400000000 else None)
        [\<lparr>ev_text = ''dizzy'', ev_timestamp = Some ''2024-01-02T00:00:00'', ev_drugs = None\<rparr>]
        [\<lparr>ev_text = ''rx'', ev_timestamp = Some ''2024-01-01T12:00:00'', ev_drugs = Some [''x'']\<rparr>]
        ''dizzy'') = Inr [0]"
  by code_simp

lemma unparsable_symptom_raises:
  assumes "prescriptions \<noteq> []" and "str_contains (lower (ev_text s)) (lower kw)"
    and "ev_timestamp s = Some ts" and "f ts = None"
    and "\<forall>e\<in>set before. \<not> str_contains (lower (ev_text e)) (lower kw)"
  shows "correlate_with_medications f (before @ s # rest) prescriptions kw = Inl ValueError"
proof -
  have "filter (\<lambda>s. str_contains (lower (ev_text s)) (lower kw)) (before @ s # rest)
          = s # filter (\<lambda>s. str_contains (lower (ev_text s)) (lower kw)) rest"
    using assms(2,5) by simp
  then show ?thesis
    using assms(1,3,4) by (simp add: correlate_with_medications_def Let_def)
qed

text \<open>
  C10. A symptom whose timestamp the parser rejects is not left out by the correlator: the
  computation ends with \<open>ValueError\<close>, though the other symptom and the prescription are well
  formed; the same holds when the prescription is the malformed event. The ordering of a
  history compares the timestamp strings and keeps the malformed event, here in front.
\<close>

theorem malformed_timestamp_raises:
  "correlate_with_medications
     (\<lambda>t. if t = ''2024-01-01T00:00:00'' then Some 0
           else if t = ''2024-01-03T00:00:00'' then Some 172800000000 else None)
     [\<lparr>ev_text = ''dizzy'', ev_timestamp = Some ''not-a-date'', ev_drugs = None\<rparr>,
      \<lparr>ev_text = ''dizzy again'', ev_timestamp = Some ''2024-01-03T00:00:00'', ev_drugs = None\<rparr>]
     [\<lparr>ev_text = ''rx'', ev_timestamp = Some ''2024-01-01T00:00:00'', ev_drugs = Some [''x'']\<rparr>]
     ''dizzy'' = Inl ValueError
   \<and> correlate_with_medications
     (\<lambda>t. if t = ''2024-01-01T00:00:00'' then Some 0
           else if t = ''2024-01-03T00:00:00'' then Some 172800000000 else None)
     [\<lparr>ev_text = ''dizzy again'', ev_timestamp = Some ''2024-01-03T00:00:00'', ev_drugs = None\<rparr>]
     [\<lparr>ev_text = ''rx'', ev_timestamp = Some ''2024-01-01T00:00:00'', ev_drugs = Some [''x'']\<rparr>,
      \<lparr>ev_text = ''rx2'', ev_timestamp = Some ''not-a-date'', ev_drugs = Some [''y'']\<rparr>]
     ''dizzy'' = Inl ValueError
   \<and> sort_newest_first
     [\<lparr>ev_text = ''dizzy again'', ev_timestamp = Some ''2024-01-03T00:00:00'', ev_drugs = None\<rparr>,
      \<lparr>ev_text = ''dizzy'', ev_timestamp = Some ''not-a-date'', ev_drugs = None\<rparr>]
     = [\<lparr>ev_text = ''dizzy'', ev_timestamp = Some ''not-a-date'', ev_drugs = None\<rparr>,
        \<lparr>ev_text = ''dizzy again'', ev_timestamp = Some ''2024-01-03T00:00:00'', ev_drugs = None\<rparr>]"
proof (intro conjI)
  let ?f = "\<lambda>t. if t = ''2024-01-01T00:00:00'' then Some (0::int)
           else if t = ''2024-01-03T00:00:00'' then Some 172800000000 else None"
  let ?bad = "\<lparr>ev_text = ''dizzy'', ev_timestamp = Some ''not-a-date'', ev_drugs = None\<rparr>"
  let ?good = "\<lparr>ev_text = ''dizzy again'', ev_timestamp = Some ''2024-01-03T00:00:00'',
                ev_drugs = None\<rparr>"
  let ?rx = "\<lparr>ev_text = ''rx'', ev_timestamp = Some ''2024-01-01T00:00:00'',
              ev_drugs = Some [''x'']\<rparr>"
  let ?rx2 = "\<lparr>ev_text = ''rx2'', ev_timestamp = Some ''not-a-date'', ev_drugs = Some [''y'']\<rparr>"
  have k: "str_contains (lower (ev_text ?bad)) (lower ''dizzy'')" by code_simp
  have n: "?f ''not-a-date'' = None" by simp
  show "correlate_with_medications ?f [?bad, ?good] [?rx] ''dizzy'' = Inl ValueError"
    using unparsable_symptom_raises [of "[?rx]" ?bad "''dizzy''" "''not-a-date''" ?f "[]" "[?good]"]
          k n by simp
  show "correlate_with_medications ?f [?good] [?rx, ?rx2] ''dizzy'' = Inl ValueError"
    by code_simp
  show "sort_newest_first [?good, ?bad] = [?bad, ?good]"
    by code_simp
qed

section \<open>Properties of the keyword extractors\<close>

lemma split_acc_chars:
  "w \<in> set (split_acc cur s) \<Longrightarrow> c \<in> set w \<Longrightarrow> c \<in> set cur \<or> (c \<in> set s \<and> \<not> is_space c)"
  by (induction cur s rule: split_acc.induct) (auto split: if_splits)

lemma split_chars: "w \<in> set (split s) \<Longrightarrow> c \<in> set w \<Longrightarrow> c \<in> set s \<and> \<not> is_space c"
  using split_acc_chars [of w "[]" s c] by (simp add: split_def)

lemma split_all_space: "\<forall>c\<in>set s. is_space c \<Longrightarrow> split s = []"
  unfolding split_def by (induction s) simp_all

lemma is_space_blank: "is_space (CHR '' '')"
  by (simp add: is_space_def)

lemma remove_punctuation_chars:
  "c \<in> set (remove_punctuation s) \<Longrightarrow> \<not> is_space c \<Longrightarrow> is_word_char c"
  by (auto simp: remove_punctuation_def is_space_blank split: if_splits)

lemma count_list_filter:
  "count_list (filter P xs) w = (if P w then count_list xs w else 0)"
  by (induction xs) auto

lemma helper_degenerate:
  assumes "\<forall>c\<in>set t. \<not> is_word_char (lower_char c)"
  shows "extract_keywords_from_text t min_length = []"
proof -
  have "\<forall>c\<in>set (remove_punctuation (lower t)). is_space c"
    using assms by (auto simp: remove_punctuation_def lower_def is_space_blank)
  then have "split (remove_punctuation (lower t)) = []" by (rule split_all_space)
  then show ?thesis by (simp add: extract_keywords_from_text_def)
qed

text \<open>
  The extractor of the helpers does what the specification of the keyword extractor says,
  for every \<open>min_length\<close>: a token consists of word characters only, has at least
  \<open>min_length\<close> characters and is no stop word; a text without a word character gives no
  token; the output is the list of the words of the cleaned text with those failing a test
  left out, so in order and as often as they occur.
\<close>

lemma extract_keywords_from_text_tokens:
  "(\<forall>w\<in>set (extract_keywords_from_text t min_length).
      (\<forall>c\<in>set w. is_word_char c) \<and> min_length \<le> int (length w) \<and> w \<notin> helper_stop_words)
   \<and> ((\<forall>c\<in>set t. \<not> is_word_char (lower_char c)) \<longrightarrow>
        extract_keywords_from_text t min_length = [])
   \<and> subseq (extract_keywords_from_text t min_length) (split (remove_punctuation (lower t)))
   \<and> (\<forall>w. min_length \<le> int (length w) \<and> w \<notin> helper_stop_words \<longrightarrow>
        count_list (extract_keywords_from_text t min_length) w
          = count_list (split (remove_punctuation (lower t))) w)"
proof (intro conjI ballI allI impI)
  fix w assume w: "w \<in> set (extract_keywords_from_text t min_length)"
  then have sp: "w \<in> set (split (remove_punctuation (lower t)))"
    by (simp add: extract_keywords_from_text_def)
  show "min_length \<le> int (length w)" and "w \<notin> helper_stop_words"
    using w by (simp_all add: extract_keywords_from_text_def)
  fix c assume "c \<in> set w"
  with sp have "c \<in> set (remove_punctuation (lower t)) \<and> \<not> is_space c"
    by (rule split_chars)
  then show "is_word_char c" using remove_punctuation_chars by blast
next
  assume "\<forall>c\<in>set t. \<not> is_word_char (lower_char c)"
  then show "extract_keywords_from_text t min_length = []" by (rule helper_degenerate)
next
  show "subseq (extract_keywords_from_text t min_length) (split (remove_punctuation (lower t)))"
    by (simp add: extract_keywords_from_text_def)
next
  fix w assume "min_length \<le> int (length w) \<and> w \<notin> helper_stop_words"
  then show "count_list (extract_keywords_from_text t min_length) w
          = count_list (split (remove_punctuation (lower t))) w"
    by (simp add: extract_keywords_from_text_def count_list_filter)
qed

text \<open>
  C9. The extractor the pattern detector calls, \<open>PatternAgent._extract_keywords\<close>, tests the
  length and the stop words on the word as split and strips the punctuation afterwards. From
  the text below it returns the stop word "have" (from "have."), the three-letter token "bad"
  (from "bad!") and the token "well-being", whose hyphen is no word character; the extractor
  of the helpers returns none of them from the same text. The stop word reaches the detector:
  two reports that end in "have." make "have" a recurring symptom.
\<close>

theorem extract_keywords_returns_stop_word:
  "extract_keywords ''Headache is what I have. Bad! No well-being.''
     = [''headache'', ''what'', ''have'', ''bad'', ''well-being'']
   \<and> ''have'' \<in> stop_words
   \<and> length ''bad'' < 4
   \<and> \<not> is_word_char (CHR ''-'')
   \<and> extract_keywords_from_text ''Headache is what I have. Bad! No well-being.'' 4
       = [''headache'', ''what'', ''well'']
   \<and> ''have'' \<in> symptom_keyword ` set (patterns_of (detect_recurring_symptoms
        [\<lparr>ev_text = ''Headache is what I have.'', ev_timestamp = Some ''day1'', ev_drugs = None\<rparr>,
         \<lparr>ev_text = ''Nausea is what I have.'', ev_timestamp = Some ''day3'', ev_drugs = None\<rparr>]))"
  by code_simp

end
